theory Spec2Isabelle
  imports Complex_Main
begin

section \<open>JavaScript numbers\<close>

text \<open>
  The TypeScript sources compute with the JavaScript \<open>number\<close> type.  A number is
  modelled as an exact rational or one of the three non-finite values.  Two points
  are idealised: a finite double is taken to be the rational it denotes (no rounding
  of quotients and products), and the sign of zero is not tracked (a zero divisor
  is \<open>+0\<close>).  Durations, playback times and frame rates are the only quantities
  computed this way; run lengths, pixel cursors and frame indices are integers.
\<close>

datatype number = Fin rat | PosInf | NegInf | NaN

text \<open>The relational operators \<open><\<close>, \<open>>\<close>, \<open><=\<close>, \<open>>=\<close>: each is false when an
  operand is \<open>NaN\<close>.\<close>

fun num_lt :: "number \<Rightarrow> number \<Rightarrow> bool" where
  "num_lt NaN _ = False"
| "num_lt _ NaN = False"
| "num_lt (Fin a) (Fin b) = (a < b)"
| "num_lt (Fin _) PosInf = True"
| "num_lt (Fin _) NegInf = False"
| "num_lt PosInf _ = False"
| "num_lt NegInf NegInf = False"
| "num_lt NegInf _ = True"

definition num_gt :: "number \<Rightarrow> number \<Rightarrow> bool" where
  "num_gt a b = num_lt b a"

definition num_le :: "number \<Rightarrow> number \<Rightarrow> bool" where
  "num_le a b = (a \<noteq> NaN \<and> b \<noteq> NaN \<and> \<not> num_lt b a)"

definition num_ge :: "number \<Rightarrow> number \<Rightarrow> bool" where
  "num_ge a b = num_le b a"

fun num_add :: "number \<Rightarrow> number \<Rightarrow> number" where
  "num_add NaN _ = NaN"
| "num_add _ NaN = NaN"
| "num_add (Fin a) (Fin b) = Fin (a + b)"
| "num_add PosInf NegInf = NaN"
| "num_add NegInf PosInf = NaN"
| "num_add PosInf _ = PosInf"
| "num_add NegInf _ = NegInf"
| "num_add (Fin _) b = b"

fun num_neg :: "number \<Rightarrow> number" where
  "num_neg (Fin a) = Fin (- a)"
| "num_neg PosInf = NegInf"
| "num_neg NegInf = PosInf"
| "num_neg NaN = NaN"

definition num_sub :: "number \<Rightarrow> number \<Rightarrow> number" where
  "num_sub a b = num_add a (num_neg b)"

text \<open>The sign of an infinite result, from the sign of a finite operand.\<close>

definition signed_inf :: "rat \<Rightarrow> number" where
  "signed_inf s = (if 0 < s then PosInf else if s < 0 then NegInf else NaN)"

fun num_mul :: "number \<Rightarrow> number \<Rightarrow> number" where
  "num_mul NaN _ = NaN"
| "num_mul _ NaN = NaN"
| "num_mul (Fin a) (Fin b) = Fin (a * b)"
| "num_mul (Fin a) PosInf = signed_inf a"
| "num_mul (Fin a) NegInf = signed_inf (- a)"
| "num_mul PosInf (Fin b) = signed_inf b"
| "num_mul NegInf (Fin b) = signed_inf (- b)"
| "num_mul PosInf PosInf = PosInf"
| "num_mul NegInf NegInf = PosInf"
| "num_mul PosInf NegInf = NegInf"
| "num_mul NegInf PosInf = NegInf"

fun num_div :: "number \<Rightarrow> number \<Rightarrow> number" where
  "num_div NaN _ = NaN"
| "num_div _ NaN = NaN"
| "num_div (Fin a) (Fin b) = (if b = 0 then signed_inf a else Fin (a / b))"
| "num_div (Fin _) _ = Fin 0"
| "num_div PosInf (Fin b) = (if 0 \<le> b then PosInf else NegInf)"
| "num_div NegInf (Fin b) = (if 0 \<le> b then NegInf else PosInf)"
| "num_div _ _ = NaN"

text \<open>\<open>Math.round\<close> rounds to the nearest integer, a tie towards \<open>+\<infinity>\<close>;
  \<open>Math.floor\<close> rounds down.  Both return a non-finite argument as it is.\<close>

fun math_round :: "number \<Rightarrow> number" where
  "math_round (Fin q) = Fin (of_int \<lfloor>q + 1 / 2\<rfloor>)"
| "math_round x = x"


text \<open>\<open>Math.min\<close> and \<open>Math.max\<close> of two arguments: \<open>NaN\<close> when an argument is.\<close>

definition math_min :: "number \<Rightarrow> number \<Rightarrow> number" where
  "math_min a b = (if a = NaN \<or> b = NaN then NaN else if num_lt b a then b else a)"

definition math_max :: "number \<Rightarrow> number \<Rightarrow> number" where
  "math_max a b = (if a = NaN \<or> b = NaN then NaN else if num_lt a b then b else a)"

text \<open>\<open>Math.max(...xs)\<close> over a spread array of integers: \<open>-Infinity\<close> for no
  argument.\<close>

definition math_max_list :: "int list \<Rightarrow> number" where
  "math_max_list xs = fold (\<lambda>x m. math_max m (Fin (of_int x))) xs NegInf"


section \<open>Frame rate reconciliation (\<open>trackVideoText\<close>, \<open>trackVideoTextFast\<close>)\<close>

text \<open>
  Both tracking functions read the duration of the source in the \<open>loadedmetadata\<close>
  handler of a temporary video element and derive two rates from it:
  \<^verbatim>\<open>
  const maxFrameIdx = Math.max(...frameIndices);
  const sam3FPS = duration > 0 && maxFrameIdx > 0
      ? Math.round((maxFrameIdx + 1) / duration) : 30;
  const fpsMultiplier = sam3FPS <= 10 ? 5 : (sam3FPS <= 15 ? 2 : 1);
  const originalFPS = sam3FPS * fpsMultiplier;
  \<close>
  The \<open>error\<close> handler of the element resolves with the defaults
  \<open>{duration: 10, sam3FPS: 30, originalFPS: 30}\<close>.
\<close>

definition sam3FPS :: "number \<Rightarrow> int list \<Rightarrow> number" where
  "sam3FPS duration frameIndices =
     (let maxFrameIdx = math_max_list frameIndices in
      if num_gt duration (Fin 0) \<and> num_gt maxFrameIdx (Fin 0)
      then math_round (num_div (num_add maxFrameIdx (Fin 1)) duration)
      else Fin 30)"

definition fpsMultiplier :: "number \<Rightarrow> number" where
  "fpsMultiplier rate =
     (if num_le rate (Fin 10) then Fin 5 else if num_le rate (Fin 15) then Fin 2 else Fin 1)"

definition originalFPS :: "number \<Rightarrow> number" where
  "originalFPS rate = num_mul rate (fpsMultiplier rate)"

datatype metadata_event = LoadedMetadata number | MetadataError

record video_meta =
  meta_duration :: number
  meta_sam3FPS :: number
  meta_originalFPS :: number

fun videoMetadata :: "metadata_event \<Rightarrow> int list \<Rightarrow> video_meta" where
  "videoMetadata (LoadedMetadata duration) frameIndices =
     \<lparr>meta_duration = duration,
      meta_sam3FPS = sam3FPS duration frameIndices,
      meta_originalFPS = originalFPS (sam3FPS duration frameIndices)\<rparr>"
| "videoMetadata MetadataError frameIndices =
     \<lparr>meta_duration = Fin 10, meta_sam3FPS = Fin 30, meta_originalFPS = Fin 30\<rparr>"


section \<open>Playback synchronizer (\<open>updateOverlay\<close>)\<close>







section \<open>Trimming (\<open>trimVideoFile\<close>)\<close>

text \<open>
  \<open>trimVideoFile\<close> plays the source between \<open>startTime\<close> and \<open>endTime\<close> and records a
  canvas that \<open>processFrame\<close> redraws on every animation frame.  Its mutable variables
  are the state: the flag \<open>isRecording\<close>, the \<open>MediaRecorder\<close> (\<open>null\<close> until
  \<open>startRecording\<close> creates it) with its \<open>state\<close> attribute, whether the video is
  paused, the number of pictures drawn, the values handed to \<open>onProgress\<close> in order,
  and whether \<open>processFrame\<close> has requested another animation frame.  What the video
  element shows at a call is an observation: \<open>video.ended\<close> and \<open>video.currentTime\<close>.
\<close>

datatype recorder_state = Inactive | Recording | Paused

record trim_state =
  isRecording :: bool
  mediaRecorder :: "recorder_state option"
  videoPaused :: bool
  framesDrawn :: nat
  progressReports :: "number list"
  frameRequested :: bool

record video_obs =
  ended :: bool
  currentTime :: number

text \<open>
  \<^verbatim>\<open>
  const stopRecording = () => {
    isRecording = false;
    video.pause();
    if (mediaRecorder && mediaRecorder.state !== 'inactive') mediaRecorder.stop();
  };
  \<close>
\<close>

definition stopRecording :: "trim_state \<Rightarrow> trim_state" where
  "stopRecording st =
     st\<lparr>isRecording := False,
        videoPaused := True,
        mediaRecorder :=
          (case mediaRecorder st of
             None \<Rightarrow> None
           | Some r \<Rightarrow> if r \<noteq> Inactive then Some Inactive else Some r)\<rparr>"

text \<open>The value handed to \<open>onProgress\<close>:
  \<^verbatim>\<open>
  const duration = endTime - startTime;
  const current = video.currentTime - startTime;
  onProgress(Math.min(100, Math.max(0, (current / duration) * 100)));
  \<close>
\<close>

definition trimProgress :: "number \<Rightarrow> number \<Rightarrow> number \<Rightarrow> number" where
  "trimProgress now startTime endTime =
     (let duration = num_sub endTime startTime;
          current = num_sub now startTime
      in math_min (Fin 100) (math_max (Fin 0) (num_mul (num_div current duration) (Fin 100))))"

text \<open>
  \<^verbatim>\<open>
  const processFrame = () => {
    if (!isRecording) return;
    if (video.ended || video.currentTime >= endTime) { stopRecording(); return; }
    ctx.drawImage(video, 0, 0, canvas.width, canvas.height);
    if (onProgress) { ... onProgress(...) }
    animationId = requestAnimationFrame(processFrame);
  };
  \<close>
  The argument \<open>onProgress\<close> of the model says whether a callback was passed.
\<close>

definition processFrame :: "number \<Rightarrow> number \<Rightarrow> bool \<Rightarrow> video_obs \<Rightarrow> trim_state \<Rightarrow> trim_state" where
  "processFrame startTime endTime onProgress video st =
     (if \<not> isRecording st then st\<lparr>frameRequested := False\<rparr>
      else if ended video \<or> num_ge (currentTime video) endTime
      then (stopRecording st)\<lparr>frameRequested := False\<rparr>
      else st\<lparr>framesDrawn := framesDrawn st + 1,
              progressReports :=
                (if onProgress
                 then progressReports st @ [trimProgress (currentTime video) startTime endTime]
                 else progressReports st),
              frameRequested := True\<rparr>)"

text \<open>The animation loop over the successive observations of the video: it runs
  \<open>processFrame\<close> for as long as a frame is requested.\<close>

fun playback :: "number \<Rightarrow> number \<Rightarrow> bool \<Rightarrow> video_obs list \<Rightarrow> trim_state \<Rightarrow> trim_state" where
  "playback startTime endTime onProgress [] st = st"
| "playback startTime endTime onProgress (v # vs) st =
     (if frameRequested st
      then playback startTime endTime onProgress vs (processFrame startTime endTime onProgress v st)
      else st)"

text \<open>The state in which \<open>startRecording\<close> hands over to \<open>processFrame\<close>: the recorder
  has been started and \<open>video.play()\<close> has resolved.\<close>

definition recordingStarted :: trim_state where
  "recordingStarted =
     \<lparr>isRecording = True, mediaRecorder = Some Recording, videoPaused = False,
      framesDrawn = 0, progressReports = [], frameRequested = True\<rparr>"


section \<open>RLE mask decoder (\<open>decodeRLEToImageData\<close>)\<close>

text \<open>
  A mask is \<open>{size: [height, width], counts: number[]}\<close>.  Run lengths are integers;
  the code does not check their sign, so the model takes any integer.  An
  \<open>ImageData\<close> holds \<open>4 * width * height\<close> bytes (RGBA, row-major), all zero when
  created; its constructor raises \<open>IndexSizeError\<close> when a dimension is zero.
  Among the errors, \<open>Error msg\<close> is \<open>new Error(msg)\<close> and
  \<open>TimeoutWaitingForFrame k\<close> is \<open>new Error(`Timeout waiting for frame ${k}`)\<close>.
\<close>

record rle_mask =
  mask_size :: "nat \<times> nat"
  counts :: "int list"

record image_data =
  id_width :: nat
  id_height :: nat
  id_data :: "nat list"

datatype js_error =
  IndexSizeError | TypeError | Error string | TimeoutWaitingForFrame int

definition newImageData :: "nat \<Rightarrow> nat \<Rightarrow> js_error + image_data" where
  "newImageData w h =
     (if w = 0 \<or> h = 0 then Inl IndexSizeError
      else Inr \<lparr>id_width = w, id_height = h, id_data = replicate (4 * (w * h)) 0\<rparr>)"

text \<open>A store \<open>data[i] = v\<close> into a typed array has no effect outside the array.\<close>

definition typed_set :: "nat list \<Rightarrow> int \<Rightarrow> nat \<Rightarrow> nat list" where
  "typed_set data i v = (if 0 \<le> i \<and> i < int (length data) then data[nat i := v] else data)"

text \<open>The body of the inner loop, for one pixel \<open>j\<close>:
  \<^verbatim>\<open>
  const idx = j * 4;
  if (idx + 3 < data.length) {
      data[idx] = 255; data[idx + 1] = 255; data[idx + 2] = 255; data[idx + 3] = 255;
  }
  \<close>
\<close>

definition setPixelWhite :: "nat list \<Rightarrow> int \<Rightarrow> nat list" where
  "setPixelWhite data j =
     (let idx = j * 4 in
      if idx + 3 < int (length data)
      then typed_set (typed_set (typed_set (typed_set data idx 255) (idx + 1) 255)
                        (idx + 2) 255) (idx + 3) 255
      else data)"

text \<open>The decoder's variables: the pixel cursor \<open>p\<close>, the fill value \<open>val\<close> and the
  bytes written so far.\<close>

record decode_state =
  ds_p :: int
  ds_val :: int
  ds_data :: "nat list"

text \<open>One iteration of the outer loop, for the run length \<open>count\<close>:
  \<^verbatim>\<open>
  if (val === 1) {
      const endIdx = Math.min(p + count, width * height);
      for (let j = p; j < endIdx; j++) { ... }
  }
  p += count;
  val = 1 - val;
  \<close>
\<close>

definition decodeRun :: "nat \<Rightarrow> nat \<Rightarrow> decode_state \<Rightarrow> int \<Rightarrow> decode_state" where
  "decodeRun width height st count =
     \<lparr>ds_p = ds_p st + count,
      ds_val = 1 - ds_val st,
      ds_data =
        (if ds_val st = 1
         then let endIdx = min (ds_p st + count) (int (width * height))
              in fold (\<lambda>j data. setPixelWhite data j) [ds_p st .. endIdx - 1] (ds_data st)
         else ds_data st)\<rparr>"

definition decodeLoop :: "nat \<Rightarrow> nat \<Rightarrow> int list \<Rightarrow> nat list \<Rightarrow> decode_state" where
  "decodeLoop width height cs data =
     fold (\<lambda>count st. decodeRun width height st count) cs
       \<lparr>ds_p = 0, ds_val = 0, ds_data = data\<rparr>"

definition decodeRLEToImageData :: "rle_mask \<Rightarrow> nat \<Rightarrow> nat \<Rightarrow> js_error + image_data" where
  "decodeRLEToImageData rleMask width height =
     (case newImageData width height of
        Inl e \<Rightarrow> Inl e
      | Inr imageData \<Rightarrow>
          Inr (imageData\<lparr>id_data :=
                 ds_data (decodeLoop width height (counts rleMask) (id_data imageData))\<rparr>))"

text \<open>Reading the result: the four bytes of pixel \<open>k\<close>, and the image as a sequence of
  bits (1 for a pixel that is opaque white).\<close>

type_synonym rgba = "nat \<times> nat \<times> nat \<times> nat"

definition pixelAt :: "nat list \<Rightarrow> nat \<Rightarrow> rgba" where
  "pixelAt data k = (data ! (4 * k), data ! (4 * k + 1), data ! (4 * k + 2), data ! (4 * k + 3))"

definition pixelBits :: "image_data \<Rightarrow> nat list" where
  "pixelBits img =
     map (\<lambda>k. if pixelAt (id_data img) k = (255, 255, 255, 255) then 1 else 0)
       [0 ..< id_width img * id_height img]"


text \<open>A reading of the run lengths used in the proofs: the pixel \<open>k\<close> lies in a run
  whose fill value is 1, counting from cursor \<open>p\<close> and fill value \<open>v\<close>.\<close>

fun covered :: "int \<Rightarrow> int \<Rightarrow> int list \<Rightarrow> int \<Rightarrow> bool" where
  "covered p v [] k = False"
| "covered p v (c # cs) k = ((v = 1 \<and> p \<le> k \<and> k < p + c) \<or> covered (p + c) (1 - v) cs k)"


section \<open>Overlay compositor (\<open>colorForObjectId\<close>, \<open>renderMasksOnFrame\<close>)\<close>

subsection \<open>The palette\<close>

type_synonym rgb = "nat \<times> nat \<times> nat"

definition colors :: "rgb list" where
  "colors =
     [(255, 0, 0), (0, 255, 0), (0, 0, 255), (255, 255, 0), (255, 0, 255),
      (0, 255, 255), (255, 165, 0), (128, 0, 128), (255, 192, 203), (0, 128, 0)]"

text \<open>The remainder operator \<open>%\<close> on integers takes the sign of the dividend.\<close>

definition js_rem :: "int \<Rightarrow> int \<Rightarrow> int" where
  "js_rem a b = sgn a * (\<bar>a\<bar> mod \<bar>b\<bar>)"

text \<open>\<open>colors[objId % colors.length]\<close>: reading the array at a negative index yields
  \<open>undefined\<close>, here \<open>None\<close>.\<close>

definition colorForObjectId :: "int \<Rightarrow> rgb option" where
  "colorForObjectId objId =
     (let i = js_rem objId (int (length colors))
      in if 0 \<le> i \<and> i < int (length colors) then Some (colors ! nat i) else None)"

text \<open>\<open>objectIds[i] || i\<close>: the operator \<open>||\<close> takes its right operand when the left one
  is falsy, which a missing entry (\<open>undefined\<close>) is, and the number 0 as well.\<close>

definition objIdFor :: "int list \<Rightarrow> nat \<Rightarrow> int" where
  "objIdFor objectIds i =
     (if i < length objectIds \<and> objectIds ! i \<noteq> 0 then objectIds ! i else int i)"

subsection \<open>Canvases\<close>

text \<open>
  The platform's 2-D canvas is modelled as far as the compositor uses it.  A raster
  (a canvas backing store, an \<open>ImageBitmap\<close>) is a width, a height and its pixels
  in row-major order, each an RGBA quadruple of bytes with straight alpha.  A new
  canvas is transparent black.  Porter-Duff compositing is computed on exact
  rationals and each channel rounded to the nearest byte; a browser's fixed-point
  arithmetic may differ from this by one unit on partially transparent pixels.
\<close>

record bitmap =
  bm_width :: nat
  bm_height :: nat
  bm_pixels :: "rgba list"

definition blankCanvas :: "nat \<Rightarrow> nat \<Rightarrow> bitmap" where
  "blankCanvas w h = \<lparr>bm_width = w, bm_height = h, bm_pixels = replicate (w * h) (0, 0, 0, 0)\<rparr>"

definition getPixel :: "bitmap \<Rightarrow> nat \<Rightarrow> nat \<Rightarrow> rgba" where
  "getPixel bm x y = bm_pixels bm ! (y * bm_width bm + x)"

definition channel :: "rat \<Rightarrow> nat" where
  "channel q = nat (min 255 (max 0 \<lfloor>q + 1 / 2\<rfloor>))"

text \<open>\<open>globalCompositeOperation = 'source-over'\<close> with the given \<open>globalAlpha\<close>: the
  source pixel \<open>s\<close> over the destination pixel \<open>d\<close>.\<close>

definition source_over :: "rat \<Rightarrow> rgba \<Rightarrow> rgba \<Rightarrow> rgba" where
  "source_over globalAlpha s d =
     (case s of (sr, sg, sb, sa) \<Rightarrow>
      case d of (dr, dg, db, da) \<Rightarrow>
        let as = of_nat sa / 255 * globalAlpha;
            ad = of_nat da / 255;
            ao = as + ad * (1 - as)
        in if ao = 0 then (0, 0, 0, 0)
           else (channel ((of_nat sr * as + of_nat dr * ad * (1 - as)) / ao),
                 channel ((of_nat sg * as + of_nat dg * ad * (1 - as)) / ao),
                 channel ((of_nat sb * as + of_nat db * ad * (1 - as)) / ao),
                 channel (255 * ao)))"

text \<open>\<open>globalCompositeOperation = 'source-in'\<close> with an opaque fill colour as the
  source: the colour is kept where the destination has coverage, with the
  destination's alpha.\<close>

definition source_in :: "rgb \<Rightarrow> rgba \<Rightarrow> rgba" where
  "source_in color d =
     (case color of (r, g, b) \<Rightarrow>
      case d of (dr, dg, db, da) \<Rightarrow> if da = 0 then (0, 0, 0, 0) else (r, g, b, da))"

text \<open>\<open>ctx.drawImage(src, 0, 0)\<close> in source-over mode: the source at its own size, at
  the origin, clipped to the canvas.\<close>

definition drawImage :: "rat \<Rightarrow> bitmap \<Rightarrow> bitmap \<Rightarrow> bitmap" where
  "drawImage globalAlpha src canvas =
     canvas\<lparr>bm_pixels :=
       map (\<lambda>k. let x = k mod bm_width canvas; y = k div bm_width canvas
                in if x < bm_width src \<and> y < bm_height src
                   then source_over globalAlpha (getPixel src x y) (bm_pixels canvas ! k)
                   else bm_pixels canvas ! k)
           [0 ..< bm_width canvas * bm_height canvas]\<rparr>"

text \<open>\<open>ctx.drawImage(src, 0, 0, dw, dh)\<close> with \<open>imageSmoothingEnabled = false\<close>: the
  source stretched to \<open>dw\<close> by \<open>dh\<close> by nearest-neighbour sampling at pixel centres.\<close>

definition scaleNearest :: "bitmap \<Rightarrow> nat \<Rightarrow> nat \<Rightarrow> bitmap" where
  "scaleNearest src dw dh =
     \<lparr>bm_width = dw, bm_height = dh,
      bm_pixels =
        map (\<lambda>k. let x = k mod dw; y = k div dw
                 in getPixel src (((2 * x + 1) * bm_width src) div (2 * dw))
                                 (((2 * y + 1) * bm_height src) div (2 * dh)))
            [0 ..< dw * dh]\<rparr>"

text \<open>\<open>ctx.putImageData(imageData, 0, 0)\<close> on a canvas of the image's size replaces
  the pixels.\<close>

definition putImageData :: "image_data \<Rightarrow> bitmap" where
  "putImageData img =
     \<lparr>bm_width = id_width img, bm_height = id_height img,
      bm_pixels = map (pixelAt (id_data img)) [0 ..< id_width img * id_height img]\<rparr>"

text \<open>\<open>ctx.fillRect(0, 0, width, height)\<close> in source-in mode with an opaque
  \<open>fillStyle\<close>.\<close>

definition fillRectSourceIn :: "rgb \<Rightarrow> bitmap \<Rightarrow> bitmap" where
  "fillRectSourceIn color canvas = canvas\<lparr>bm_pixels := map (source_in color) (bm_pixels canvas)\<rparr>"

text \<open>
  A raster as a canvas or an \<open>ImageBitmap\<close> holds it: one pixel per position, every
  channel a byte, and a fully transparent pixel transparent black (colour is stored
  premultiplied, so it has none at alpha 0).  The pictures of a video are opaque,
  and so are the frames that the extractor captures from them.
\<close>

definition storedPixel :: "rgba \<Rightarrow> bool" where
  "storedPixel p =
     (case p of (r, g, b, a) \<Rightarrow>
        r \<le> 255 \<and> g \<le> 255 \<and> b \<le> 255 \<and> a \<le> 255 \<and> (a = 0 \<longrightarrow> r = 0 \<and> g = 0 \<and> b = 0))"

definition wellFormed :: "bitmap \<Rightarrow> bool" where
  "wellFormed bm =
     (length (bm_pixels bm) = bm_width bm * bm_height bm \<and> list_all storedPixel (bm_pixels bm))"

text \<open>
  What the page cannot decide is a parameter: whether \<open>getContext('2d')\<close> returns a
  context for a given canvas (a conforming browser always does for a new canvas;
  the sources test for \<open>null\<close> all the same), and the PNG data URL that
  \<open>canvas.toDataURL('image/png')\<close> returns for a backing store.
\<close>

datatype canvas_role =
  MainCanvas | MaskCanvas nat | ScaledMaskCanvas nat | OverlayCanvas nat
| FrameCopyCanvas | ExtractCanvas | AssemblerCanvas | DecodeCanvas

record platform =
  getContext :: "canvas_role \<Rightarrow> bool"
  toDataURL :: "bitmap \<Rightarrow> string"

subsection \<open>\<open>renderMasksOnFrame\<close>\<close>

text \<open>
  The colouring and blending of one mask layer, which the source repeats in both
  branches of its resolution test:
  \<^verbatim>\<open>
  ctx.save(); ctx.globalAlpha = alpha; ctx.globalCompositeOperation = 'source-over';
  const overlayCanvas = document.createElement('canvas');   // at the frame's size
  const overlayCtx = overlayCanvas.getContext('2d');
  if (overlayCtx) {
      overlayCtx.drawImage(layer, 0, 0);
      overlayCtx.globalCompositeOperation = 'source-in';
      overlayCtx.fillStyle = `rgb(${color[0]}, ${color[1]}, ${color[2]})`;
      overlayCtx.fillRect(0, 0, overlayCanvas.width, overlayCanvas.height);
      ctx.drawImage(overlayCanvas, 0, 0);
  }
  ctx.restore();
  \<close>
  Reading \<open>color[0]\<close> of an undefined colour raises \<open>TypeError\<close>.
\<close>

definition blendLayer ::
  "platform \<Rightarrow> nat \<Rightarrow> rat \<Rightarrow> rgb option \<Rightarrow> bitmap \<Rightarrow> bitmap \<Rightarrow> js_error + bitmap" where
  "blendLayer pf i alpha color layer canvas =
     (if getContext pf (OverlayCanvas i) then
        (case color of
           None \<Rightarrow> Inl TypeError
         | Some c \<Rightarrow>
             let overlayCanvas =
                   drawImage 1 layer (blankCanvas (bm_width canvas) (bm_height canvas));
                 overlayCanvas = fillRectSourceIn c overlayCanvas
             in Inr (drawImage alpha overlayCanvas canvas))
      else Inr canvas)"

text \<open>One iteration of the loop over the masks, for the mask at position \<open>i\<close>.\<close>

definition renderMask ::
  "platform \<Rightarrow> rat \<Rightarrow> int list \<Rightarrow> bitmap \<Rightarrow> nat \<times> rle_mask \<Rightarrow> js_error + bitmap" where
  "renderMask pf alpha objectIds canvas im =
     (case im of (i, rleMask) \<Rightarrow>
      let objId = objIdFor objectIds i;
          color = colorForObjectId objId
      in case mask_size rleMask of (maskHeight, maskWidth) \<Rightarrow>
         (case decodeRLEToImageData rleMask maskWidth maskHeight of
            Inl e \<Rightarrow> Inl e
          | Inr maskImageData \<Rightarrow>
              if \<not> getContext pf (MaskCanvas i) then Inr canvas
              else
                let maskCanvas = putImageData maskImageData in
                if maskWidth \<noteq> bm_width canvas \<or> maskHeight \<noteq> bm_height canvas then
                  (if getContext pf (ScaledMaskCanvas i) then
                     let scaledMaskCanvas =
                           drawImage 1 (scaleNearest maskCanvas (bm_width canvas) (bm_height canvas))
                             (blankCanvas (bm_width canvas) (bm_height canvas))
                     in blendLayer pf i alpha color scaledMaskCanvas canvas
                   else Inr canvas)
                else blendLayer pf i alpha color maskCanvas canvas))"

fun renderLoop ::
  "platform \<Rightarrow> rat \<Rightarrow> int list \<Rightarrow> (nat \<times> rle_mask) list \<Rightarrow> bitmap \<Rightarrow> js_error + bitmap" where
  "renderLoop pf alpha objectIds [] canvas = Inr canvas"
| "renderLoop pf alpha objectIds (im # rest) canvas =
     (case renderMask pf alpha objectIds canvas im of
        Inl e \<Rightarrow> Inl e
      | Inr canvas' \<Rightarrow> renderLoop pf alpha objectIds rest canvas')"

definition renderMasksOnFrame ::
  "platform \<Rightarrow> bitmap \<Rightarrow> rle_mask list \<Rightarrow> int list \<Rightarrow> rat \<Rightarrow> js_error + string" where
  "renderMasksOnFrame pf frameImage masks objectIds alpha =
     (if \<not> getContext pf MainCanvas then Inl (Error ''Failed to get canvas context'')
      else
        let canvas = drawImage 1 frameImage
                       (blankCanvas (bm_width frameImage) (bm_height frameImage))
        in case renderLoop pf alpha objectIds (zip [0 ..< length masks] masks) canvas of
             Inl e \<Rightarrow> Inl e
           | Inr canvas' \<Rightarrow> Inr (toDataURL pf canvas'))"

text \<open>The colour in which \<open>renderMasksOnFrame\<close> draws the mask at position \<open>i\<close>.\<close>

definition maskColor :: "int list \<Rightarrow> nat \<Rightarrow> rgb option" where
  "maskColor objectIds i = colorForObjectId (objIdFor objectIds i)"


section \<open>Frame extraction (\<open>extractVideoFrames\<close>)\<close>

text \<open>
  The extractor loads the file into a video element and, for each requested index in
  the order given, seeks to \<open>frameIdx / fps\<close> and captures the picture on display.  What
  the element does is the environment of the model: whether the file loads, its
  duration, the picture it displays after a seek to a time (the element clamps a
  negative time to 0), and what happens to the \<open>i\<close>-th request of the loop:
  \<^item> \<open>SeekTimeout\<close>: no \<open>seeked\<close> event within 5000 ms, so the timer calls
    \<open>frameReject(new Error(`Timeout waiting for frame ${frameIdx}`))\<close>;
  \<^item> \<open>DrawFailed\<close>: \<open>ctx.drawImage\<close> raises, and the handler calls \<open>frameResolve()\<close>;
  \<^item> \<open>BlobFailed\<close>: \<open>canvas.toBlob\<close> yields \<open>null\<close>, then \<open>frameResolve()\<close>;
  \<^item> \<open>BitmapFailed\<close>: \<open>createImageBitmap\<close> rejects, then \<open>frameResolve()\<close>;
  \<^item> \<open>CaptureOk\<close>: the bitmap is pushed onto \<open>frames\<close>, then \<open>frameResolve()\<close>.
  The timer is cleared when \<open>seeked\<close> fires, so it bounds the seek only.  The type of
  pictures is a parameter.
\<close>

datatype capture_event = SeekTimeout | DrawFailed | BlobFailed | BitmapFailed | CaptureOk

record 'img video_source =
  vs_loads :: bool
  vs_duration :: number
  vs_picture :: "rat \<Rightarrow> 'img"
  vs_capture :: "nat \<Rightarrow> capture_event"

text \<open>
  The loop over \<open>frameIndices\<close>, from position \<open>i\<close> with the bitmaps pushed so far:
  \<^verbatim>\<open>
  const time = frameIdx / fps;
  if (time > video.duration) { console.warn(...); continue; }
  await new Promise<void>((frameResolve, frameReject) => { ...; video.currentTime = time; });
  \<close>
  A rejected promise makes the \<open>await\<close> raise, which leaves the loop for the \<open>catch\<close>
  around it: \<open>reject(error)\<close>.  Assigning a non-finite time to \<open>currentTime\<close> raises
  \<open>TypeError\<close> inside the promise executor and so rejects the same way.
\<close>

fun extractLoop ::
  "'img video_source \<Rightarrow> number \<Rightarrow> nat \<Rightarrow> int list \<Rightarrow> 'img list \<Rightarrow> js_error + 'img list" where
  "extractLoop video fps i [] frames = Inr frames"
| "extractLoop video fps i (frameIdx # rest) frames =
     (let time = num_div (Fin (of_int frameIdx)) fps in
      if num_gt time (vs_duration video) then extractLoop video fps (Suc i) rest frames
      else
        (case time of
           Fin t \<Rightarrow>
             (case vs_capture video i of
                SeekTimeout \<Rightarrow> Inl (TimeoutWaitingForFrame frameIdx)
              | CaptureOk \<Rightarrow>
                  extractLoop video fps (Suc i) rest (frames @ [vs_picture video (max 0 t)])
              | _ \<Rightarrow> extractLoop video fps (Suc i) rest frames)
         | _ \<Rightarrow> Inl TypeError))"

definition extractVideoFrames ::
  "platform \<Rightarrow> 'img video_source \<Rightarrow> int list \<Rightarrow> number \<Rightarrow> js_error + 'img list" where
  "extractVideoFrames pf video frameIndices fps =
     (if \<not> vs_loads video then Inl (Error ''Failed to load video'')
      else if \<not> getContext pf ExtractCanvas then Inl (Error ''Failed to get canvas context'')
      else extractLoop video fps 0 frameIndices [])"


section \<open>Rendering the tracked frames (\<open>trackVideoText\<close>, \<open>trackVideoTextFast\<close>)\<close>

text \<open>
  A frame packet of the response: \<open>frame_idx\<close>, \<open>masks\<close> and \<open>object_ids\<close>.  A missing
  \<open>masks\<close> or \<open>object_ids\<close> field reads as the empty list (\<open>frameData.masks || []\<close>).
\<close>

record frame_packet =
  frame_idx :: int
  pk_masks :: "rle_mask list"
  object_ids :: "int list"

text \<open>\<open>Array.prototype.indexOf\<close>: the first position of the element, or \<open>-1\<close>.\<close>

fun indexOfFrom :: "'a list \<Rightarrow> 'a \<Rightarrow> int \<Rightarrow> int" where
  "indexOfFrom [] x k = - 1"
| "indexOfFrom (y # ys) x k = (if y = x then k else indexOfFrom ys x (k + 1))"

definition indexOf :: "'a list \<Rightarrow> 'a \<Rightarrow> int" where
  "indexOf xs x = indexOfFrom xs x 0"

text \<open>
  \<open>data.frames.map(f => f.frame_idx).sort((a, b) => a - b)\<close>: the indices in
  ascending order.
\<close>

definition sortedFrameIndices :: "frame_packet list \<Rightarrow> int list" where
  "sortedFrameIndices frames = sort (map frame_idx frames)"

text \<open>
  The original frame that the render loop takes for a packet:
  \<^verbatim>\<open>
  const frameIndexInArray = frameIndices.indexOf(frameIdx);
  if (frameIndexInArray === -1 || frameIndexInArray >= originalFrames.length) {
      console.warn(`Frame ${frameIdx} not found in extracted frames, skipping`);
      continue;
  }
  const originalFrame = originalFrames[frameIndexInArray];
  \<close>
\<close>

definition frameForPacket :: "int list \<Rightarrow> 'img list \<Rightarrow> int \<Rightarrow> 'img option" where
  "frameForPacket frameIndices originalFrames frameIdx =
     (let frameIndexInArray = indexOf frameIndices frameIdx in
      if frameIndexInArray = - 1 \<or> frameIndexInArray \<ge> int (length originalFrames) then None
      else Some (originalFrames ! nat frameIndexInArray))"

text \<open>
  The frame without masks, in the branch for an empty mask list and in the fallback
  after a failed render:
  \<^verbatim>\<open>
  const canvas = document.createElement('canvas');
  canvas.width = originalFrame.width; canvas.height = originalFrame.height;
  const ctx = canvas.getContext('2d');
  if (ctx) { ctx.drawImage(originalFrame, 0, 0); renderedFrames.push(canvas.toDataURL('image/png')); }
  \<close>
\<close>

definition copyFrame :: "platform \<Rightarrow> bitmap \<Rightarrow> string option" where
  "copyFrame pf originalFrame =
     (if getContext pf FrameCopyCanvas
      then Some (toDataURL pf
                   (drawImage 1 originalFrame
                      (blankCanvas (bm_width originalFrame) (bm_height originalFrame))))
      else None)"

text \<open>One iteration of the render loop: the URL pushed onto \<open>renderedFrames\<close>, if
  any.  The overlay opacity is 0.7.\<close>

definition renderPacket ::
  "platform \<Rightarrow> int list \<Rightarrow> bitmap list \<Rightarrow> frame_packet \<Rightarrow> string option" where
  "renderPacket pf frameIndices originalFrames frameData =
     (case frameForPacket frameIndices originalFrames (frame_idx frameData) of
        None \<Rightarrow> None
      | Some originalFrame \<Rightarrow>
          if 0 < length (pk_masks frameData) then
            (case renderMasksOnFrame pf originalFrame (pk_masks frameData)
                    (object_ids frameData) (7 / 10) of
               Inr renderedFrameUrl \<Rightarrow> Some renderedFrameUrl
             | Inl renderError \<Rightarrow> copyFrame pf originalFrame)
          else copyFrame pf originalFrame)"

definition renderFrames ::
  "platform \<Rightarrow> int list \<Rightarrow> bitmap list \<Rightarrow> frame_packet list \<Rightarrow> string list" where
  "renderFrames pf frameIndices originalFrames frames =
     List.map_filter (renderPacket pf frameIndices originalFrames) frames"


section \<open>Video assembly (\<open>createVideoFromFrames\<close>)\<close>

text \<open>
  The assembler returns a promise.  It settles from event handlers, so a promise of
  the model is resolved, rejected, or pending for ever.  The environment of the model
  says whether an image URL decodes, which container types the recorder supports,
  whether the \<open>MediaRecorder\<close> constructor returns, whether the recorder raises an
  \<open>error\<close> event while it records, and the object URL made for the recorded blob.
  The recording is described by the capture rate, the container type asked for
  and the images drawn while the recorder ran, in order.
\<close>

datatype 'a promise = Resolved 'a | Rejected js_error | Pending

record encoded_video =
  ev_rate :: number
  ev_mimeType :: "string option"
  ev_frames :: "string list"

record recorder_env =
  loadImage :: "string \<Rightarrow> bool"
  isTypeSupported :: "string \<Rightarrow> bool"
  recorderConstructs :: bool
  recorderError :: bool
  createObjectURL :: "encoded_video \<Rightarrow> string"

text \<open>\<open>frame.startsWith('data:') ? frame : `data:image/png;base64,${frame}`\<close>\<close>

definition frameUrl :: "string \<Rightarrow> string" where
  "frameUrl f = (if take 5 f = ''data:'' then f else ''data:image/png;base64,'' @ f)"

text \<open>The container type: VP9 in WebM, else plain WebM, else the browser's choice.\<close>

definition recorderMimeType :: "(string \<Rightarrow> bool) \<Rightarrow> string option" where
  "recorderMimeType supported =
     (if \<not> supported ''video/webm;codecs=vp9''
      then (if supported ''video/webm'' then Some ''video/webm'' else None)
      else Some ''video/webm;codecs=vp9'')"

text \<open>
  \<open>drawNextFrame\<close>, from \<open>frameIndex\<close> on: an image that loads is drawn, and drawing the
  image at index 0 starts the recorder; an image that fails to load is skipped.  The
  state is whether the recorder has been started and the images drawn.
\<close>

fun drawFrames ::
  "recorder_env \<Rightarrow> nat \<Rightarrow> string list \<Rightarrow> bool \<times> string list \<Rightarrow> bool \<times> string list" where
  "drawFrames env frameIndex [] st = st"
| "drawFrames env frameIndex (f # rest) (started, drawn) =
     (if loadImage env (frameUrl f)
      then drawFrames env (Suc frameIndex) rest (started \<or> frameIndex = 0, drawn @ [frameUrl f])
      else drawFrames env (Suc frameIndex) rest (started, drawn))"

text \<open>
  The argument \<open>frames\<close> is \<open>None\<close> when the caller passes \<open>null\<close> or \<open>undefined\<close>.  The
  recorder is stopped after the last frame only if it is recording; a recorder that
  was never started leaves the promise pending.
\<close>

definition createVideoFromFrames ::
  "platform \<Rightarrow> recorder_env \<Rightarrow> string list option \<Rightarrow> number \<Rightarrow> string promise" where
  "createVideoFromFrames pf env frames fps =
     (case frames of
        None \<Rightarrow> Rejected (Error ''No frames provided'')
      | Some [] \<Rightarrow> Rejected (Error ''No frames provided'')
      | Some (f0 # rest) \<Rightarrow>
          if \<not> getContext pf AssemblerCanvas
          then Rejected (Error ''Failed to get canvas context'')
          else if \<not> loadImage env (frameUrl f0)
          then Rejected (Error ''Failed to load first frame'')
          else if \<not> recorderConstructs env then Pending
          else
            (case drawFrames env 0 (f0 # rest) (False, []) of
               (started, drawn) \<Rightarrow>
                 if \<not> started then Pending
                 else if recorderError env then Rejected (Error ''MediaRecorder error'')
                 else Resolved (createObjectURL env
                        \<lparr>ev_rate = fps,
                         ev_mimeType = recorderMimeType (isTypeSupported env),
                         ev_frames = drawn\<rparr>)))"


section \<open>Composite mask image (\<open>decodeMasksToDataURL\<close>)\<close>

text \<open>
  The image pipeline decodes all masks of a result into one white-on-transparent
  image at the size of the first mask, with the decoder's loop; it returns the empty
  string for an empty or missing list, for a missing context and after any exception.
\<close>

definition decodeMasksToDataURL :: "platform \<Rightarrow> rle_mask list option \<Rightarrow> string" where
  "decodeMasksToDataURL pf masks =
     (case masks of
        None \<Rightarrow> ''''
      | Some [] \<Rightarrow> ''''
      | Some (m0 # rest) \<Rightarrow>
          (case mask_size m0 of (height, width) \<Rightarrow>
             if \<not> getContext pf DecodeCanvas then ''''
             else
               (case newImageData width height of
                  Inl e \<Rightarrow> ''''
                | Inr imageData \<Rightarrow>
                    toDataURL pf (putImageData (imageData\<lparr>id_data :=
                      fold (\<lambda>m data. ds_data (decodeLoop width height (counts m) data))
                        (m0 # rest) (id_data imageData)\<rparr>)))))"


section \<open>The tracking pipeline after the response\<close>

text \<open>
  For a response with at least one frame packet, \<open>trackVideoText\<close> and
  \<open>trackVideoTextFast\<close> sort the frame indices, estimate the rates, extract the
  original frames at the sampled rate, render every packet and assemble the rendered
  frames at the estimated source rate.  An exception of the extractor leaves the
  function through its outer \<open>catch\<close>, which rethrows; a failed assembly falls back to
  the first rendered frame (\<open>renderedFrames[0] || null\<close>).
\<close>

datatype tracking_result =
  NoObjectsTracked
| NoFramesRendered
| TrackedVideo string "string list"
| TrackedImage "string option" "string list"

definition trackFrames ::
  "platform \<Rightarrow> recorder_env \<Rightarrow> bitmap video_source \<Rightarrow> metadata_event \<Rightarrow> frame_packet list
     \<Rightarrow> tracking_result promise" where
  "trackFrames pf env video ev frames =
     (if length frames = 0 then Resolved NoObjectsTracked
      else
        let frameIndices = sortedFrameIndices frames;
            meta = videoMetadata ev frameIndices
        in case extractVideoFrames pf video frameIndices (meta_sam3FPS meta) of
             Inl e \<Rightarrow> Rejected e
           | Inr originalFrames \<Rightarrow>
               let renderedFrames = renderFrames pf frameIndices originalFrames frames in
               if length renderedFrames = 0 then Resolved NoFramesRendered
               else
                 (case createVideoFromFrames pf env (Some renderedFrames)
                         (meta_originalFPS meta) of
                    Resolved videoUrl \<Rightarrow> Resolved (TrackedVideo videoUrl renderedFrames)
                  | Rejected videoError \<Rightarrow>
                      Resolved (TrackedImage
                        (if hd renderedFrames = '''' then None else Some (hd renderedFrames))
                        renderedFrames)
                  | Pending \<Rightarrow> Pending))"


section \<open>Test fixtures\<close>

text \<open>
  A platform on which every canvas gets a context (the data URL is immaterial); a
  one-second video whose picture at time \<open>t\<close> is identified with \<open>t\<close> itself, so that a
  captured frame tells the time it was taken at, and in which the request at one
  position of the loop meets the given event while the others succeed; and a
  two-pixel opaque frame.
\<close>

definition testPlatform :: platform where
  "testPlatform = \<lparr>getContext = (\<lambda>role. True), toDataURL = (\<lambda>bm. ''data:image/png;base64,'')\<rparr>"

definition testVideo :: "nat \<Rightarrow> capture_event \<Rightarrow> rat video_source" where
  "testVideo pos event =
     \<lparr>vs_loads = True, vs_duration = Fin 1, vs_picture = (\<lambda>t. t),
      vs_capture = (\<lambda>i. if i = pos then event else CaptureOk)\<rparr>"

definition testFrame :: bitmap where
  "testFrame = \<lparr>bm_width = 2, bm_height = 1,
                 bm_pixels = [(10, 20, 30, 255), (200, 100, 50, 255)]\<rparr>"


section \<open>Verified properties\<close>

subsection \<open>The rate estimate\<close>

lemma floor_half_rat: "\<lfloor>(1::rat) / 2\<rfloor> = 0"
  by (simp add: floor_eq_iff)

lemma math_max_list_fold:
  "m \<noteq> NaN \<Longrightarrow> fold (\<lambda>x m. math_max m (Fin (of_int x))) xs m \<noteq> NaN"
  by (induction xs arbitrary: m) (auto simp: math_max_def)

lemma math_max_list_not_NaN: "math_max_list xs \<noteq> NaN"
  unfolding math_max_list_def by (rule math_max_list_fold) simp

lemma math_max_list_fold_int:
  "(\<exists>k::int. m = Fin (of_int k)) \<or> m = NegInf \<Longrightarrow>
   (\<exists>k::int. fold (\<lambda>x m. math_max m (Fin (of_int x))) xs m = Fin (of_int k)) \<or>
   fold (\<lambda>x m. math_max m (Fin (of_int x))) xs m = NegInf"
proof (induction xs arbitrary: m)
  case Nil
  then show ?case by simp
next
  case (Cons x xs)
  have "(\<exists>k::int. math_max m (Fin (of_int x)) = Fin (of_int k)) \<or>
        math_max m (Fin (of_int x)) = NegInf"
    using Cons.prems by (auto simp: math_max_def)
  from Cons.IH [OF this] show ?case by simp
qed

lemma math_max_list_cases:
  "(\<exists>k::int. math_max_list xs = Fin (of_int k)) \<or> math_max_list xs = NegInf"
  unfolding math_max_list_def by (rule math_max_list_fold_int) simp

lemma sam3FPS_integer: "\<exists>n::int. sam3FPS d xs = Fin (of_int n)"
proof (cases "num_gt d (Fin 0) \<and> num_gt (math_max_list xs) (Fin 0)")
  case False
  then have "sam3FPS d xs = Fin (of_int 30)"
    by (auto simp add: sam3FPS_def Let_def)
  then show ?thesis by blast
next
  case True
  then obtain k :: int where k: "math_max_list xs = Fin (of_int k)"
    using math_max_list_cases [of xs] by (auto simp: num_gt_def)
  from True have "d = PosInf \<or> (\<exists>q. d = Fin q \<and> 0 < q)"
    by (cases d) (auto simp: num_gt_def)
  then show ?thesis
  proof
    assume "d = PosInf"
    with True k have "sam3FPS d xs = Fin (of_int 0)"
      by (simp add: sam3FPS_def Let_def floor_half_rat)
    then show ?thesis by blast
  next
    assume "\<exists>q. d = Fin q \<and> 0 < q"
    then obtain q where q: "d = Fin q" "0 < q" by blast
    with True k have "sam3FPS d xs = Fin (of_int \<lfloor>(of_int k + 1) / q + 1 / 2\<rfloor>)"
      by (simp add: sam3FPS_def Let_def)
    then show ?thesis by blast
  qed
qed

lemma originalFPS_Fin:
  "originalFPS (Fin q) = Fin (q * (if q \<le> 10 then 5 else if q \<le> 15 then 2 else 1))"
  by (simp add: originalFPS_def fpsMultiplier_def num_le_def)

text \<open>
  Claim C3.  The estimated source rate is the sampled rate times a multiplier: 5 when
  the sampled rate is at most 10, 2 when it is at most 15, and 1 otherwise.  This holds
  for every finite rate, and for the pair of rates that the metadata step hands on,
  whose sampled rate is always an integer; the boundary values 10, 11, 15 and 16 get
  the multipliers 5, 2, 2 and 1.
\<close>

theorem C3_source_rate_multiplier:
  "originalFPS (Fin q) = Fin (q * (if q \<le> 10 then 5 else if q \<le> 15 then 2 else 1))
   \<and> (\<exists>n::int. meta_sam3FPS (videoMetadata ev idxs) = Fin (of_int n)
        \<and> meta_originalFPS (videoMetadata ev idxs)
            = Fin (of_int (n * (if n \<le> 10 then 5 else if n \<le> 15 then 2 else 1))))
   \<and> fpsMultiplier (Fin 10) = Fin 5 \<and> fpsMultiplier (Fin 11) = Fin 2
   \<and> fpsMultiplier (Fin 15) = Fin 2 \<and> fpsMultiplier (Fin 16) = Fin 1
   \<and> originalFPS (Fin 10) = Fin 50 \<and> originalFPS (Fin 11) = Fin 22
   \<and> originalFPS (Fin 16) = Fin 16"
proof -
  have general: "originalFPS (Fin q) = Fin (q * (if q \<le> 10 then 5 else if q \<le> 15 then 2 else 1))"
    by (rule originalFPS_Fin)
  have pipeline: "\<exists>n::int. meta_sam3FPS (videoMetadata ev idxs) = Fin (of_int n)
        \<and> meta_originalFPS (videoMetadata ev idxs)
            = Fin (of_int (n * (if n \<le> 10 then 5 else if n \<le> 15 then 2 else 1)))"
  proof (cases ev)
    case MetadataError
    then have "meta_sam3FPS (videoMetadata ev idxs) = Fin (of_int 30)
      \<and> meta_originalFPS (videoMetadata ev idxs)
          = Fin (of_int (30 * (if (30::int) \<le> 10 then 5 else if (30::int) \<le> 15 then 2 else 1)))"
      by simp
    then show ?thesis by blast
  next
    case (LoadedMetadata d)
    obtain n :: int where n: "sam3FPS d idxs = Fin (of_int n)"
      using sam3FPS_integer by blast
    have "originalFPS (Fin (of_int n))
            = Fin (of_int (n * (if n \<le> 10 then 5 else if n \<le> 15 then 2 else 1)))"
      by (simp add: originalFPS_Fin)
    with n LoadedMetadata show ?thesis by auto
  qed
  have table: "fpsMultiplier (Fin 10) = Fin 5 \<and> fpsMultiplier (Fin 11) = Fin 2
      \<and> fpsMultiplier (Fin 15) = Fin 2 \<and> fpsMultiplier (Fin 16) = Fin 1"
    by (simp add: fpsMultiplier_def num_le_def)
  have rates: "originalFPS (Fin 10) = Fin 50 \<and> originalFPS (Fin 11) = Fin 22
      \<and> originalFPS (Fin 16) = Fin 16"
    by (simp add: originalFPS_Fin)
  from general pipeline table rates show ?thesis by blast
qed










subsection \<open>The playback synchronizer\<close>










subsection \<open>Trimming\<close>


lemma trimProgress_zero_window:
  "t < e \<Longrightarrow> trimProgress (Fin t) (Fin e) (Fin e) = Fin 0"
  by (simp add: trimProgress_def Let_def num_sub_def math_min_def math_max_def signed_inf_def)

lemma playback_stopped: "\<not> frameRequested st \<Longrightarrow> playback s e cb vs st = st"
  by (cases vs) simp_all

lemma playback_example:
  "progressReports (playback (Fin 0) (Fin 10) True
      [\<lparr>ended = False, currentTime = Fin 0\<rparr>, \<lparr>ended = False, currentTime = Fin 5\<rparr>,
       \<lparr>ended = False, currentTime = Fin 10\<rparr>, \<lparr>ended = False, currentTime = Fin 11\<rparr>]
      recordingStarted) = [Fin 0, Fin 50]
   \<and> mediaRecorder (playback (Fin 0) (Fin 10) True
      [\<lparr>ended = False, currentTime = Fin 0\<rparr>, \<lparr>ended = False, currentTime = Fin 5\<rparr>,
       \<lparr>ended = False, currentTime = Fin 10\<rparr>, \<lparr>ended = False, currentTime = Fin 11\<rparr>]
      recordingStarted) = Some Inactive"
  by (simp add: processFrame_def recordingStarted_def trimProgress_def num_sub_def
      math_min_def math_max_def num_ge_def num_le_def stopRecording_def)





subsection \<open>The RLE decoder\<close>

lemma length_typed_set [simp]: "length (typed_set data i v) = length data"
  by (simp add: typed_set_def)

lemma length_setPixelWhite [simp]: "length (setPixelWhite data j) = length data"
  by (simp add: setPixelWhite_def Let_def)

lemma nth_typed_set:
  "n < length data \<Longrightarrow> typed_set data i v ! n = (if i = int n then v else data ! n)"
  by (auto simp: typed_set_def nth_list_update)

lemma pixelAt_setPixelWhite:
  assumes "length data = 4 * N" "k < N"
  shows "pixelAt (setPixelWhite data j) k
           = (if j = int k then (255, 255, 255, 255) else pixelAt data k)"
proof (cases "j * 4 + 3 < int (length data)")
  case False
  then have "j \<noteq> int k" using assms by auto
  with False show ?thesis by (simp add: setPixelWhite_def Let_def)
next
  case True
  have k: "4 * k < length data" "4 * k + 1 < length data" "4 * k + 2 < length data"
    "4 * k + 3 < length data" using assms by simp_all
  show ?thesis
    using True k
    by (simp add: setPixelWhite_def Let_def pixelAt_def nth_typed_set)
qed

lemma pixelAt_fold_setPixelWhite:
  assumes "length data = 4 * N" "k < N"
  shows "pixelAt (fold (\<lambda>j d. setPixelWhite d j) js data) k
           = (if int k \<in> set js then (255, 255, 255, 255) else pixelAt data k)"
  using assms
proof (induction js arbitrary: data)
  case Nil
  then show ?case by simp
next
  case (Cons j js)
  have len: "length (setPixelWhite data j) = 4 * N" using Cons.prems by simp
  show ?case
    using Cons.IH [OF len Cons.prems(2)] pixelAt_setPixelWhite [OF Cons.prems, of j]
    by auto
qed

lemma length_fold_setPixelWhite [simp]:
  "length (fold (\<lambda>j d. setPixelWhite d j) js data) = length data"
  by (induction js arbitrary: data) simp_all

lemma pixelAt_decodeRun:
  assumes "length (ds_data st) = 4 * (width * height)" "k < width * height"
  shows "pixelAt (ds_data (decodeRun width height st c)) k
           = (if ds_val st = 1 \<and> ds_p st \<le> int k \<and> int k < ds_p st + c
              then (255, 255, 255, 255) else pixelAt (ds_data st) k)"
proof -
  have k: "int k < int width * int height"
    using assms(2) by (metis of_nat_less_iff of_nat_mult)
  show ?thesis
    using assms k
    by (auto simp: decodeRun_def Let_def pixelAt_fold_setPixelWhite [where N = "width * height"])
qed

lemma length_decodeRun [simp]:
  "length (ds_data (decodeRun width height st c)) = length (ds_data st)"
  by (simp add: decodeRun_def Let_def)

lemma decodeRun_cursor [simp]:
  "ds_p (decodeRun width height st c) = ds_p st + c"
  "ds_val (decodeRun width height st c) = 1 - ds_val st"
  by (simp_all add: decodeRun_def)

lemma pixelAt_fold_decodeRun:
  assumes "length (ds_data st) = 4 * (width * height)" "k < width * height"
  shows "pixelAt (ds_data (fold (\<lambda>count st. decodeRun width height st count) cs st)) k
           = (if covered (ds_p st) (ds_val st) cs (int k)
              then (255, 255, 255, 255) else pixelAt (ds_data st) k)"
  using assms
proof (induction cs arbitrary: st)
  case Nil
  then show ?case by simp
next
  case (Cons c cs)
  have len: "length (ds_data (decodeRun width height st c)) = 4 * (width * height)"
    using Cons.prems by simp
  show ?case
    using Cons.IH [OF len Cons.prems(2)] pixelAt_decodeRun [OF Cons.prems, of c]
    by auto
qed

lemma fold_decodeRun_cursor:
  "ds_p (fold (\<lambda>count st. decodeRun width height st count) cs st) = ds_p st + sum_list cs"
  by (induction cs arbitrary: st) simp_all

lemma fold_decodeRun_val:
  "ds_val st = 0 \<or> ds_val st = 1 \<Longrightarrow>
   ds_val (fold (\<lambda>count st. decodeRun width height st count) cs st)
     = (if even (length cs) then ds_val st else 1 - ds_val st)"
  by (induction cs arbitrary: st) auto

lemma length_fold_decodeRun [simp]:
  "length (ds_data (fold (\<lambda>count st. decodeRun width height st count) cs st))
     = length (ds_data st)"
  by (induction cs arbitrary: st) simp_all

lemma covered_iff:
  "v = 0 \<or> v = 1 \<Longrightarrow>
   covered p v cs k \<longleftrightarrow>
     (\<exists>i < length cs. (even i \<longleftrightarrow> v = 1)
        \<and> p + sum_list (take i cs) \<le> k \<and> k < p + sum_list (take (Suc i) cs))"
proof (induction cs arbitrary: p v)
  case Nil
  then show ?case by simp
next
  case (Cons c cs)
  have v': "1 - v = 0 \<or> 1 - v = 1" using Cons.prems by auto
  let ?Q = "\<lambda>i. (even i \<longleftrightarrow> v = 1)
        \<and> p + sum_list (take i (c # cs)) \<le> k \<and> k < p + sum_list (take (Suc i) (c # cs))"
  have split: "(\<exists>i < length (c # cs). ?Q i) \<longleftrightarrow> ?Q 0 \<or> (\<exists>i < length cs. ?Q (Suc i))"
  proof
    assume "\<exists>i < length (c # cs). ?Q i"
    then obtain i where i: "i < length (c # cs)" "?Q i" by blast
    show "?Q 0 \<or> (\<exists>i < length cs. ?Q (Suc i))"
    proof (cases i)
      case 0
      with i show ?thesis by blast
    next
      case (Suc i')
      with i have "i' < length cs" "?Q (Suc i')" by simp_all
      then show ?thesis by blast
    qed
  next
    assume "?Q 0 \<or> (\<exists>i < length cs. ?Q (Suc i))"
    then show "\<exists>i < length (c # cs). ?Q i"
    proof
      assume "?Q 0"
      then show ?thesis by (intro exI [of _ 0]) simp
    next
      assume "\<exists>i < length cs. ?Q (Suc i)"
      then obtain i where "i < length cs" "?Q (Suc i)" by blast
      then show ?thesis by (intro exI [of _ "Suc i"]) simp
    qed
  qed
  have head: "?Q 0 \<longleftrightarrow> (v = 1 \<and> p \<le> k \<and> k < p + c)" by auto
  have tail: "(\<exists>i < length cs. ?Q (Suc i)) \<longleftrightarrow> covered (p + c) (1 - v) cs k"
    unfolding Cons.IH [OF v'] using Cons.prems by (auto simp: add.assoc)
  show ?case
    unfolding split head tail by simp
qed

lemma pixelAt_replicate:
  "k < N \<Longrightarrow> pixelAt (replicate (4 * N) 0) k = (0, 0, 0, 0)"
  by (simp add: pixelAt_def)

text \<open>
  Claim C1.  For positive dimensions the decoder returns an image of
  \<open>width * height\<close> pixels in which pixel \<open>k\<close> (row-major) is opaque white exactly when
  it lies in a run of odd position, that is in \<open>[p, p + count)\<close> for a run reached with
  fill value 1, where \<open>p\<close> is the sum of the run lengths before it; every other pixel
  is transparent.  Writes are clipped to \<open>width * height\<close>, since only pixels below that
  bound exist.  After the loop the cursor is the sum of all run lengths and the fill
  value has flipped once per run.  The mask \<open>{size: [2, 4], counts: [2, 2, 2, 2]}\<close>,
  decoded at its own resolution, gives the pixels \<open>[0, 0, 1, 1, 0, 0, 1, 1]\<close>.
\<close>

theorem C1_rle_decoder:
  assumes "0 < width" and "0 < height"
  shows "(\<exists>img. decodeRLEToImageData rleMask width height = Inr img
            \<and> id_width img = width \<and> id_height img = height
            \<and> length (id_data img) = 4 * (width * height)
            \<and> (\<forall>k < width * height.
                  pixelAt (id_data img) k =
                    (if \<exists>i < length (counts rleMask). odd i
                          \<and> sum_list (take i (counts rleMask)) \<le> int k
                          \<and> int k < sum_list (take (Suc i) (counts rleMask))
                     then (255, 255, 255, 255) else (0, 0, 0, 0))))
       \<and> ds_p (decodeLoop width height (counts rleMask) data) = sum_list (counts rleMask)
       \<and> ds_val (decodeLoop width height (counts rleMask) data)
            = (if even (length (counts rleMask)) then 0 else 1)
       \<and> map_sum id pixelBits
            (decodeRLEToImageData \<lparr>mask_size = (2, 4), counts = [2, 2, 2, 2]\<rparr> 4 2)
            = Inr [0, 0, 1, 1, 0, 0, 1, 1]"
proof -
  let ?cs = "counts rleMask"
  let ?N = "width * height"
  let ?data0 = "replicate (4 * ?N) (0::nat)"
  let ?img = "\<lparr>id_width = width, id_height = height,
               id_data = ds_data (decodeLoop width height ?cs ?data0)\<rparr>"
  have dec: "decodeRLEToImageData rleMask width height = Inr ?img"
    using assms by (simp add: decodeRLEToImageData_def newImageData_def)
  have len: "length (id_data ?img) = 4 * ?N"
    by (simp add: decodeLoop_def)
  have px: "pixelAt (id_data ?img) k =
              (if \<exists>i < length ?cs. odd i \<and> sum_list (take i ?cs) \<le> int k
                    \<and> int k < sum_list (take (Suc i) ?cs)
               then (255, 255, 255, 255) else (0, 0, 0, 0))" if k: "k < ?N" for k
  proof -
    let ?st0 = "\<lparr>ds_p = 0, ds_val = 0, ds_data = ?data0\<rparr>"
    have l0: "length (ds_data ?st0) = 4 * ?N" by simp
    have "pixelAt (id_data ?img) k
            = (if covered 0 0 ?cs (int k) then (255, 255, 255, 255) else pixelAt ?data0 k)"
      using pixelAt_fold_decodeRun [OF l0 k, of ?cs] by (simp add: decodeLoop_def)
    also have "pixelAt ?data0 k = (0, 0, 0, 0)"
      using k by (rule pixelAt_replicate)
    also have "covered 0 0 ?cs (int k) \<longleftrightarrow>
        (\<exists>i < length ?cs. odd i \<and> sum_list (take i ?cs) \<le> int k
              \<and> int k < sum_list (take (Suc i) ?cs))"
      using covered_iff [of 0 0 ?cs "int k"] by simp
    finally show ?thesis .
  qed
  have first: "\<exists>img. decodeRLEToImageData rleMask width height = Inr img
            \<and> id_width img = width \<and> id_height img = height
            \<and> length (id_data img) = 4 * (width * height)
            \<and> (\<forall>k < width * height.
                  pixelAt (id_data img) k =
                    (if \<exists>i < length ?cs. odd i \<and> sum_list (take i ?cs) \<le> int k
                          \<and> int k < sum_list (take (Suc i) ?cs)
                     then (255, 255, 255, 255) else (0, 0, 0, 0)))"
    using dec len px by (intro exI [of _ ?img]) simp
  have cur: "ds_p (decodeLoop width height ?cs data) = sum_list ?cs"
    by (simp add: decodeLoop_def fold_decodeRun_cursor)
  have val: "ds_val (decodeLoop width height ?cs data) = (if even (length ?cs) then 0 else 1)"
    by (simp add: decodeLoop_def fold_decodeRun_val)
  have ex: "map_sum id pixelBits
            (decodeRLEToImageData \<lparr>mask_size = (2, 4), counts = [2, 2, 2, 2]\<rparr> 4 2)
            = Inr [0, 0, 1, 1, 0, 0, 1, 1]"
    by code_simp
  from first cur val ex show ?thesis by blast
qed

text \<open>
  Claim C1, an instance, at the mask \<open>{size: [2, 4], counts: [2, 2, 2, 2]}\<close>: pixel 1 lies in the
  first (background) run and stays transparent; pixels 2 and 7 lie in the second and
  fourth runs and are set.
\<close>

theorem C1_rle_decoder_witness:
  "(0::nat) < 4 \<and> (0::nat) < 2
   \<and> (\<exists>img. decodeRLEToImageData \<lparr>mask_size = (2, 4), counts = [2, 2, 2, 2]\<rparr> 4 2 = Inr img
         \<and> pixelAt (id_data img) 1 = (0, 0, 0, 0)
         \<and> pixelAt (id_data img) 2 = (255, 255, 255, 255)
         \<and> pixelAt (id_data img) 7 = (255, 255, 255, 255))"
proof -
  from C1_rle_decoder [of 4 2 "\<lparr>mask_size = (2, 4), counts = [2, 2, 2, 2]\<rparr>" "[]"]
  obtain img where img:
    "decodeRLEToImageData \<lparr>mask_size = (2, 4), counts = [2, 2, 2, 2]\<rparr> 4 2 = Inr img"
    "\<forall>k < 4 * 2. pixelAt (id_data img) k =
        (if \<exists>i < length [2, 2, 2, 2 :: int]. odd i
              \<and> sum_list (take i [2, 2, 2, 2]) \<le> int k
              \<and> int k < sum_list (take (Suc i) [2, 2, 2, 2])
         then (255, 255, 255, 255) else (0, 0, 0, 0))"
    by auto
  have no1: "\<not> (\<exists>i < length [2, 2, 2, 2 :: int]. odd i
              \<and> sum_list (take i [2, 2, 2, 2]) \<le> int 1
              \<and> int 1 < sum_list (take (Suc i) [2, 2, 2, 2]))"
  proof
    assume "\<exists>i < length [2, 2, 2, 2 :: int]. odd i
              \<and> sum_list (take i [2, 2, 2, 2]) \<le> int 1
              \<and> int 1 < sum_list (take (Suc i) [2, 2, 2, 2])"
    then obtain i where i: "i < length [2, 2, 2, 2 :: int]" "odd i"
      "sum_list (take i [2, 2, 2, 2 :: int]) \<le> int 1"
      by blast
    from i(1) have "i = 0 \<or> i = 1 \<or> i = 2 \<or> i = 3" by auto
    with i(2,3) show False by auto
  qed
  have yes2: "\<exists>i < length [2, 2, 2, 2 :: int]. odd i
              \<and> sum_list (take i [2, 2, 2, 2]) \<le> int 2
              \<and> int 2 < sum_list (take (Suc i) [2, 2, 2, 2])"
    by (intro exI [of _ 1]) simp
  have yes7: "\<exists>i < length [2, 2, 2, 2 :: int]. odd i
              \<and> sum_list (take i [2, 2, 2, 2]) \<le> int 7
              \<and> int 7 < sum_list (take (Suc i) [2, 2, 2, 2])"
    by (intro exI [of _ 3]) simp
  have "pixelAt (id_data img) 1 = (0, 0, 0, 0)"
    using img(2) no1 by simp
  moreover have "pixelAt (id_data img) 2 = (255, 255, 255, 255)"
    using img(2) yes2 by simp
  moreover have "pixelAt (id_data img) 7 = (255, 255, 255, 255)"
    using img(2) yes7 by simp
  ultimately show ?thesis using img(1) by simp
qed


subsection \<open>Compositing a frame without masks\<close>

lemma channel_of_nat: "n \<le> 255 \<Longrightarrow> channel (of_nat n) = n"
proof -
  assume n: "n \<le> 255"
  have "\<lfloor>(of_nat n :: rat) + 1 / 2\<rfloor> = int n" by linarith
  then show ?thesis using n by (simp add: channel_def)
qed

lemma source_over_blank:
  assumes "storedPixel p"
  shows "source_over 1 p (0, 0, 0, 0) = p"
proof -
  obtain r g b a where p: "p = (r, g, b, a)" by (cases p) auto
  show ?thesis
  proof (cases "a = 0")
    case True
    with assms p show ?thesis by (simp add: storedPixel_def source_over_def)
  next
    case False
    then have a: "(of_nat a :: rat) \<noteq> 0" by simp
    have "channel (255 * (of_nat a / 255)) = a"
      using assms p by (simp add: channel_of_nat storedPixel_def)
    moreover have "channel (of_nat r * (of_nat a / 255) / (of_nat a / 255)) = r"
      "channel (of_nat g * (of_nat a / 255) / (of_nat a / 255)) = g"
      "channel (of_nat b * (of_nat a / 255) / (of_nat a / 255)) = b"
      using assms p a by (simp_all add: channel_of_nat storedPixel_def)
    ultimately show ?thesis
      using a by (simp add: p source_over_def Let_def)
  qed
qed

lemma blankCanvas_sel [simp]:
  "bm_width (blankCanvas w h) = w" "bm_height (blankCanvas w h) = h"
  "bm_pixels (blankCanvas w h) = replicate (w * h) (0, 0, 0, 0)"
  by (simp_all add: blankCanvas_def)

lemma drawImage_on_blank:
  assumes "wellFormed frame"
  shows "drawImage 1 frame (blankCanvas (bm_width frame) (bm_height frame)) = frame"
proof -
  let ?w = "bm_width frame" and ?h = "bm_height frame"
  let ?f = "\<lambda>k. let x = k mod ?w; y = k div ?w
                in if x < ?w \<and> y < ?h
                   then source_over 1 (getPixel frame x y) (bm_pixels (blankCanvas ?w ?h) ! k)
                   else bm_pixels (blankCanvas ?w ?h) ! k"
  have len: "length (bm_pixels frame) = ?w * ?h"
    using assms by (simp add: wellFormed_def)
  have stored: "storedPixel (bm_pixels frame ! k)" if "k < ?w * ?h" for k
    using assms that by (simp add: wellFormed_def list_all_length)
  have px: "?f k = bm_pixels frame ! k" if k: "k < ?w * ?h" for k
  proof -
    have w: "0 < ?w" using k by (cases "?w = 0") auto
    have x: "k mod ?w < ?w" using w by simp
    have y: "k div ?w < ?h" using k w by (simp add: less_mult_imp_div_less mult.commute)
    have "getPixel frame (k mod ?w) (k div ?w) = bm_pixels frame ! k"
      by (simp add: getPixel_def)
    then show ?thesis
      using x y k stored [OF k] by (simp add: Let_def source_over_blank)
  qed
  have "map ?f [0 ..< ?w * ?h] = map (\<lambda>k. bm_pixels frame ! k) [0 ..< ?w * ?h]"
    using px by (intro map_cong) auto
  also have "\<dots> = bm_pixels frame"
    using len by (metis map_nth)
  finally have "bm_pixels (drawImage 1 frame (blankCanvas ?w ?h)) = bm_pixels frame"
    by (simp add: drawImage_def)
  moreover have "bm_width (drawImage 1 frame (blankCanvas ?w ?h)) = ?w"
    "bm_height (drawImage 1 frame (blankCanvas ?w ?h)) = ?h"
    by (simp_all add: drawImage_def)
  ultimately show ?thesis
    by (intro bitmap.equality) simp_all
qed

lemma renderMasksOnFrame_no_masks:
  assumes "wellFormed frame" "getContext pf MainCanvas"
  shows "renderMasksOnFrame pf frame [] objectIds alpha = Inr (toDataURL pf frame)"
  using assms by (simp add: renderMasksOnFrame_def drawImage_on_blank)

lemma copyFrame_unchanged:
  assumes "wellFormed frame" "getContext pf FrameCopyCanvas"
  shows "copyFrame pf frame = Some (toDataURL pf frame)"
  using assms by (simp add: copyFrame_def drawImage_on_blank)

text \<open>
  Claim C8.  Drawing a well-formed frame onto a new canvas of its size gives back the
  frame, pixel for pixel.  So for an empty mask list \<open>renderMasksOnFrame\<close> returns the
  data URL of the unchanged frame, with no error, and so does the branch of the render
  loop that handles a packet without masks.  (Each result needs the 2-D context
  that the platform hands out for the canvas.)
\<close>

theorem C8_empty_mask_list_unchanged:
  assumes "wellFormed frame"
  shows "drawImage 1 frame (blankCanvas (bm_width frame) (bm_height frame)) = frame
       \<and> (getContext pf MainCanvas \<longrightarrow>
            renderMasksOnFrame pf frame [] objectIds alpha = Inr (toDataURL pf frame))
       \<and> (getContext pf FrameCopyCanvas
            \<and> frameForPacket frameIndices originalFrames (frame_idx frameData) = Some frame
            \<and> pk_masks frameData = [] \<longrightarrow>
            renderPacket pf frameIndices originalFrames frameData = Some (toDataURL pf frame))"
proof -
  have packet: "renderPacket pf frameIndices originalFrames frameData = Some (toDataURL pf frame)"
    if "getContext pf FrameCopyCanvas"
      "frameForPacket frameIndices originalFrames (frame_idx frameData) = Some frame"
      "pk_masks frameData = []"
    using that copyFrame_unchanged [OF assms that(1)] by (simp add: renderPacket_def)
  from drawImage_on_blank [OF assms] renderMasksOnFrame_no_masks [OF assms] packet
  show ?thesis by blast
qed

text \<open>
  Claim C8, an instance, at a two-pixel opaque frame on a platform that provides every
  context.
\<close>

theorem C8_empty_mask_list_unchanged_witness:
  "wellFormed testFrame \<and> getContext testPlatform MainCanvas
   \<and> getContext testPlatform FrameCopyCanvas
   \<and> frameForPacket [0] [testFrame] 0 = Some testFrame
   \<and> drawImage 1 testFrame (blankCanvas 2 1) = testFrame
   \<and> renderMasksOnFrame testPlatform testFrame [] [] (7 / 10)
         = Inr (toDataURL testPlatform testFrame)
   \<and> renderPacket testPlatform [0] [testFrame] \<lparr>frame_idx = 0, pk_masks = [], object_ids = []\<rparr>
         = Some (toDataURL testPlatform testFrame)"
proof -
  have wf: "wellFormed testFrame"
    by (simp add: wellFormed_def testFrame_def storedPixel_def)
  have ctx: "getContext testPlatform MainCanvas" "getContext testPlatform FrameCopyCanvas"
    by (simp_all add: testPlatform_def)
  have found: "frameForPacket [0] [testFrame] 0 = Some testFrame"
    by (simp add: frameForPacket_def indexOf_def)
  have dims: "bm_width testFrame = 2" "bm_height testFrame = 1"
    by (simp_all add: testFrame_def)
  from C8_empty_mask_list_unchanged [OF wf, where pf = testPlatform and objectIds = "[]"
      and alpha = "7 / 10" and frameIndices = "[0]" and originalFrames = "[testFrame]"
      and frameData = "\<lparr>frame_idx = 0, pk_masks = [], object_ids = []\<rparr>"]
  show ?thesis using wf ctx found dims by simp
qed


subsection \<open>Palette, assembly and extraction\<close>

lemma js_rem_nonneg: "0 \<le> a \<Longrightarrow> js_rem a 10 = a mod 10"
  by (cases "a = 0") (simp_all add: js_rem_def)

lemma length_colors [simp]: "length colors = 10"
  by (simp add: colors_def)

lemma colorForObjectId_nonneg:
  "0 \<le> objId \<Longrightarrow> colorForObjectId objId = Some (colors ! (nat objId mod 10))"
proof -
  assume a: "0 \<le> objId"
  have "nat (objId mod 10) = nat objId mod 10"
    using a by (simp add: nat_mod_distrib)
  then show ?thesis
    using a by (simp add: colorForObjectId_def js_rem_nonneg Let_def)
qed

lemma colorForObjectId_negative:
  "objId < 0 \<Longrightarrow> \<not> 10 dvd objId \<Longrightarrow> colorForObjectId objId = None"
proof -
  assume a: "objId < 0" and b: "\<not> 10 dvd objId"
  have "\<bar>objId\<bar> mod 10 \<noteq> 0" using b by (simp add: dvd_eq_mod_eq_0 [symmetric])
  moreover have "0 \<le> \<bar>objId\<bar> mod 10" by simp
  ultimately have "0 < \<bar>objId\<bar> mod 10" by linarith
  then have "js_rem objId 10 < 0" using a by (simp add: js_rem_def)
  then show ?thesis by (simp add: colorForObjectId_def Let_def)
qed

lemma maskColor_nonzero_id:
  assumes "i < length objectIds" "0 < objectIds ! i"
  shows "maskColor objectIds i = Some (colors ! (nat (objectIds ! i) mod 10))"
  using assms by (simp add: maskColor_def objIdFor_def colorForObjectId_nonneg)

lemma maskColor_zero_id:
  assumes "i < length objectIds" "objectIds ! i = 0"
  shows "maskColor objectIds i = Some (colors ! (i mod 10))"
  using assms by (simp add: maskColor_def objIdFor_def colorForObjectId_nonneg)

text \<open>
  Claim C7 at a failing input.  The claim says that the colour of a mask depends on its
  object id alone, through \<open>colors[id mod 10]\<close>.  The code computes the id as
  \<open>objectIds[i] || i\<close>, which replaces the id 0 by the position \<open>i\<close>.  A mask with
  object id 0 is red at position 0, but at position 1 (object ids \<open>[1, 0]\<close>) it is
  green, the colour of object 1, and the two masks of that packet get the same colour.
  (For a positive id the colour is \<open>colors[id mod 10]\<close> at every position:
  \<open>maskColor_nonzero_id\<close>.)
\<close>

theorem C7_zero_object_id_colored_by_position:
  "maskColor [0] 0 = Some (255, 0, 0)
   \<and> maskColor [1, 0] 1 = Some (0, 255, 0)
   \<and> maskColor [1, 0] 0 = Some (0, 255, 0)
   \<and> maskColor [1, 0] 1 \<noteq> maskColor [0] 0
   \<and> colorForObjectId 0 = Some (255, 0, 0)
   \<and> colorForObjectId 1 = Some (0, 255, 0)"
  by (simp add: maskColor_def objIdFor_def colorForObjectId_def js_rem_def colors_def)

text \<open>
  Claim C10.  For a missing (\<open>null\<close>, \<open>undefined\<close>) or empty sequence of frames the
  assembler rejects with \<open>Error("No frames provided")\<close>, whatever the platform, the
  environment and the rate; for a non-empty sequence it never gives that error.  The
  mask decoder of the image pipeline, by contrast, returns the empty string for a
  missing or empty mask list.
\<close>

theorem C10_no_frames_rejected:
  "createVideoFromFrames pf env None fps = Rejected (Error ''No frames provided'')
   \<and> createVideoFromFrames pf env (Some []) fps = Rejected (Error ''No frames provided'')
   \<and> createVideoFromFrames pf env (Some (f # fs)) fps \<noteq> Rejected (Error ''No frames provided'')
   \<and> decodeMasksToDataURL pf None = ''''
   \<and> decodeMasksToDataURL pf (Some []) = ''''"
proof -
  have none: "createVideoFromFrames pf env None fps = Rejected (Error ''No frames provided'')"
    by (simp add: createVideoFromFrames_def)
  have empty: "createVideoFromFrames pf env (Some []) fps = Rejected (Error ''No frames provided'')"
    by (simp add: createVideoFromFrames_def)
  have some: "createVideoFromFrames pf env (Some (f # fs)) fps
                \<noteq> Rejected (Error ''No frames provided'')"
    by (simp add: createVideoFromFrames_def split: prod.splits)
  have dec: "decodeMasksToDataURL pf None = ''''" "decodeMasksToDataURL pf (Some []) = ''''"
    by (simp_all add: decodeMasksToDataURL_def)
  from none empty some dec show ?thesis by blast
qed

lemma extractLoop_timeout:
  assumes "num_div (Fin (of_int frameIdx)) fps = Fin t"
    and "\<not> num_gt (Fin t) (vs_duration video)"
    and "vs_capture video i = SeekTimeout"
  shows "extractLoop video fps i (frameIdx # rest) frames = Inl (TimeoutWaitingForFrame frameIdx)"
  using assms by simp

lemma extractLoop_append:
  "extractLoop video fps i (xs @ ys) frames =
     (case extractLoop video fps i xs frames of
        Inl e \<Rightarrow> Inl e
      | Inr fs \<Rightarrow> extractLoop video fps (i + length xs) ys fs)"
proof (induction xs arbitrary: i frames)
  case Nil
  then show ?case by simp
next
  case (Cons x xs)
  show ?case
    by (simp add: Cons.IH Let_def split: number.splits capture_event.splits
        cong: sum.case_cong)
qed

lemma extractLoop_timeout_after_prefix:
  assumes "extractLoop video fps i pre frames = Inr fs"
    and "num_div (Fin (of_int frameIdx)) fps = Fin t"
    and "\<not> num_gt (Fin t) (vs_duration video)"
    and "vs_capture video (i + length pre) = SeekTimeout"
  shows "extractLoop video fps i (pre @ frameIdx # rest) frames
           = Inl (TimeoutWaitingForFrame frameIdx)"
  using assms by (simp add: extractLoop_append)

lemma extractLoop_all_captured:
  assumes "0 < r" and "\<And>i. vs_capture video i = CaptureOk"
    and "\<And>idx. idx \<in> set idxs \<Longrightarrow> \<not> num_gt (Fin (of_int idx / r)) (vs_duration video)"
  shows "extractLoop video (Fin r) i idxs frames
           = Inr (frames @ map (\<lambda>idx. vs_picture video (max 0 (of_int idx / r))) idxs)"
  using assms(3)
proof (induction idxs arbitrary: i frames)
  case Nil
  then show ?case by simp
next
  case (Cons x xs)
  have "\<not> num_gt (Fin (of_int x / r)) (vs_duration video)"
    using Cons.prems by simp
  then show ?case
    using assms(1,2) Cons.IH Cons.prems by (simp add: Let_def)
qed

lemma indexOfFrom_mem:
  "x \<in> set xs \<Longrightarrow> \<exists>n < length xs. indexOfFrom xs x k = k + int n \<and> xs ! n = x"
proof (induction xs arbitrary: k)
  case Nil
  then show ?case by simp
next
  case (Cons y ys)
  show ?case
  proof (cases "y = x")
    case True
    then show ?thesis by (intro exI [of _ 0]) simp
  next
    case False
    with Cons.prems have "x \<in> set ys" by simp
    from Cons.IH [OF this, of "k + 1"]
    obtain n where "n < length ys" "indexOfFrom ys x (k + 1) = k + 1 + int n" "ys ! n = x"
      by blast
    with False show ?thesis by (intro exI [of _ "Suc n"]) simp
  qed
qed

lemma frameForPacket_all_captured:
  assumes "idx \<in> set idxs"
  shows "frameForPacket idxs (map f idxs) idx = Some (f idx)"
proof -
  from indexOfFrom_mem [OF assms, of 0]
  obtain n where n: "n < length idxs" "indexOf idxs idx = int n" "idxs ! n = idx"
    by (auto simp: indexOf_def)
  then show ?thesis by (simp add: frameForPacket_def)
qed

text \<open>
  Claim C4 at a failing input.  The claim says that a seek that times out costs only
  its own frame.  For the indices \<open>[0, 5, 10]\<close> at 11 frames per second in a
  one-second video, a time-out of the second seek rejects the whole extraction with
  \<open>Timeout waiting for frame 5\<close>: the frame already captured is lost and index 10 is
  never tried.  The other failures of a capture do what the claim says: when
  \<open>toBlob\<close> fails for the second frame the result is the other two frames.  (In
  general a time-out at any request that is reached rejects the extraction:
  \<open>extractLoop_timeout_after_prefix\<close>.)
\<close>

theorem C4_timeout_rejects_extraction:
  "extractVideoFrames testPlatform (testVideo 1 SeekTimeout) [0, 5, 10] (Fin 11)
     = Inl (TimeoutWaitingForFrame 5)
   \<and> extractVideoFrames testPlatform (testVideo 1 BlobFailed) [0, 5, 10] (Fin 11)
     = Inr [0, 10 / 11]
   \<and> extractVideoFrames testPlatform (testVideo 1 CaptureOk) [0, 5, 10] (Fin 11)
     = Inr [0, 5 / 11, 10 / 11]"
  by (simp add: extractVideoFrames_def testPlatform_def testVideo_def num_gt_def)

text \<open>
  Claim C5 at a failing input.  The claim says that a packet with index \<open>k\<close> is
  composited onto the image extracted for index \<open>k\<close>, also when another index failed.
  The extractor returns the captured images without their indices, and the render
  loop looks a packet's image up at the position of its index among all requested
  indices.  For the indices \<open>[0, 5, 10]\<close> at 11 frames per second, when the capture of
  index 0 fails (\<open>toBlob\<close> yields \<open>null\<close>) the output holds the pictures taken at
  \<open>5/11\<close> s and \<open>10/11\<close> s; packet 0 is then rendered onto the picture taken for
  index 5, packet 5 onto the picture taken for index 10, and packet 10 is dropped.
  (When every capture succeeds the association is right:
  \<open>extractLoop_all_captured\<close>, \<open>frameForPacket_all_captured\<close>.)
\<close>

theorem C5_failed_capture_shifts_frames:
  "extractVideoFrames testPlatform (testVideo 0 BlobFailed) [0, 5, 10] (Fin 11)
     = Inr [5 / 11, 10 / 11]
   \<and> frameForPacket [0, 5, 10] [5 / 11, 10 / 11 :: rat] 0 = Some (5 / 11)
   \<and> frameForPacket [0, 5, 10] [5 / 11, 10 / 11 :: rat] 5 = Some (10 / 11)
   \<and> frameForPacket [0, 5, 10] [5 / 11, 10 / 11 :: rat] 10 = None"
  by (simp add: extractVideoFrames_def testPlatform_def testVideo_def num_gt_def
      frameForPacket_def indexOf_def)


subsection \<open>The pipeline\<close>

text \<open>
  The indices handed to the extractor are those of the packets, in ascending order; an
  error of the extractor is the result of the whole tracking call; and three packets at
  the indices 0, 5 and 10 of a one-second source give the sampled rate 11 and the
  source rate 22.
\<close>

lemma sortedFrameIndices_sorted:
  "sorted (sortedFrameIndices frames)"
  "set (sortedFrameIndices frames) = frame_idx ` set frames"
  "length (sortedFrameIndices frames) = length frames"
  by (simp_all add: sortedFrameIndices_def)

lemma trackFrames_extraction_error:
  assumes "frames \<noteq> []"
    and "extractVideoFrames pf video (sortedFrameIndices frames)
           (meta_sam3FPS (videoMetadata ev (sortedFrameIndices frames))) = Inl e"
  shows "trackFrames pf env video ev frames = Rejected e"
  using assms by (simp add: trackFrames_def Let_def)

lemma end_to_end_rates:
  "videoMetadata (LoadedMetadata (Fin 1)) [0, 5, 10]
     = \<lparr>meta_duration = Fin 1, meta_sam3FPS = Fin 11, meta_originalFPS = Fin 22\<rparr>"
  by (simp add: sam3FPS_def originalFPS_def fpsMultiplier_def math_max_list_def math_max_def
      num_gt_def num_le_def floor_eq_iff)

end
